theory Spec2Isabelle
  imports Complex_Main "HOL-Library.Char_ord" "HOL-Library.List_Lexorder"
    "HOL-Library.Multiset" "HOL-Library.AList" "HOL-Library.Monad_Syntax"
begin

section \<open>Document store\<close>

text \<open>
  The collections the services read and write, as lists in insertion order.  A document is a
  record of the fields the code reads or writes; a field that a document may lack is an
  \<open>option\<close>.  Bookkeeping values that no operation reads back (\<open>uuid4\<close> log ids, the
  time stamps of tasks and log rows, \<open>start_time\<close>, \<open>end_time\<close>, \<open>result\<close> of a factor)
  are left out.  The store assigns \<open>_id\<close> at insertion from the counter \<open>next_oid\<close>, so
  later insertions have larger ordinals.  A \<open>now\<close> argument is the reading of
  \<open>datetime.now().isoformat()\<close> during the call.
\<close>

record params_dict =
  pd_start_date :: "string option"
  pd_end_date :: "string option"
  pd_adjustment_cycle :: "int option"
  pd_stock_pool :: "string option"
  pd_factor_direction :: "bool option"
  pd_group_number :: "int option"
  pd_include_st :: "bool option"
  pd_extreme_value_processing :: "string option"

text \<open>\<open>CreateFactorRequest\<close>; \<open>factor.dict()\<close> is what \<open>user_factors\<close> stores.\<close>

record factor_request =
  cr_user_id :: string
  cr_name :: string
  cr_factor_name :: string
  cr_factor_type :: string
  cr_is_persistent :: bool
  cr_cron :: "string option"
  cr_factor_start_day :: "string option"
  cr_code :: string
  cr_code_type :: string
  cr_tags :: string
  cr_status :: int
  cr_describe :: string
  cr_params :: "params_dict option"

record user_factor =
  uf_oid :: nat
  uf_def :: factor_request
  uf_created_at :: "string option"
  uf_updated_at :: "string option"
  uf_current_task_id :: "string option"

record stage_log =
  sl_oid :: nat
  sl_task_id :: string
  sl_factor_id :: string
  sl_message :: string
  sl_level :: string
  sl_timestamp :: string
  sl_stage :: string

record task =
  t_task_id :: string
  t_factor_id :: string
  t_user_id :: string
  t_factor_name :: string
  t_params :: "params_dict option"
  t_status :: int
  t_process_status :: "int option"
  t_error_message :: "string option"
  t_result :: "string option"
  t_current_stage :: "string option"
  t_last_log_message :: "string option"
  t_last_log_time :: "string option"
  t_last_log_level :: "string option"

text \<open>A result bundle of \<open>factor_analysis_results\<close>: the two summary tables the factor list
  reads.  A row of \<open>factor_data_analysis\<close> is the indicator name and the text of its second
  column.\<close>

record one_group =
  og_return_ratio :: string
  og_annualized_ratio :: string
  og_sharpe_ratio :: rat
  og_maximum_drawdown :: string

record result_bundle =
  b_task_id :: string
  b_one_group_data :: "one_group option"
  b_factor_data_analysis :: "(string \<times> string) list option"

record db =
  user_factors :: "user_factor list"
  tasks :: "task list"
  stage_logs :: "stage_log list"
  factor_analysis_results :: "result_bundle list"
  next_oid :: nat

text \<open>\<open>mongo_update\<close> is \<open>update_many(query, {'$set': update})\<close>: every matching document
  gets the fields set, and nothing is inserted when none matches.\<close>

definition mongo_update_tasks :: "string \<Rightarrow> (task \<Rightarrow> task) \<Rightarrow> db \<Rightarrow> db" where
  "mongo_update_tasks tid upd d =
     d\<lparr>tasks := map (\<lambda>t. if t_task_id t = tid then upd t else t) (tasks d)\<rparr>"

section \<open>Log buffering: \<open>LogBatchManager\<close>\<close>

text \<open>
  A buffered entry is the dictionary \<open>emit\<close> builds; \<open>stage\<close> is read with \<open>.get\<close>, so it
  may be absent.  The manager holds the per-task buffers (a dictionary: an association list
  in the insertion order of its keys, updated in place), the threshold and the state of
  \<open>buffer_lock\<close>, a \<open>threading.Lock\<close>: it is not reentrant, so \<open>with self.buffer_lock\<close>
  entered while the lock is held does not return until the holder releases it.  The model
  follows the calls of one thread while no other thread holds the lock: a lock found held
  is held by the caller itself, which then waits for ever.  A call returns \<open>None\<close> when
  it never returns.  A store call of the flush is taken to succeed.
\<close>

record log_entry =
  le_task_id :: string
  le_factor_id :: string
  le_level :: string
  le_message :: string
  le_timestamp :: string
  le_stage :: "string option"

record manager =
  log_buffer :: "(string \<times> log_entry list) list"
  buffer_lock :: bool
  max_buffer_size :: nat

definition new_manager :: manager where
  "new_manager = \<lparr>log_buffer = [], buffer_lock = False, max_buffer_size = 50\<rparr>"

definition acquire :: "manager \<Rightarrow> manager option" where
  "acquire m = (if buffer_lock m then None else Some (m\<lparr>buffer_lock := True\<rparr>))"

definition release :: "manager \<Rightarrow> manager" where
  "release m = m\<lparr>buffer_lock := False\<rparr>"

definition log_record :: "nat \<Rightarrow> log_entry \<Rightarrow> stage_log" where
  "log_record i e =
     \<lparr>sl_oid = i, sl_task_id = le_task_id e, sl_factor_id = le_factor_id e,
      sl_message = le_message e, sl_level = le_level e, sl_timestamp = le_timestamp e,
      sl_stage = (case le_stage e of None \<Rightarrow> ''default'' | Some s \<Rightarrow> s)\<rparr>"

definition mongo_insert_log :: "log_entry \<Rightarrow> db \<Rightarrow> db" where
  "mongo_insert_log e d =
     d\<lparr>stage_logs := stage_logs d @ [log_record (next_oid d) e], next_oid := Suc (next_oid d)\<rparr>"

definition update_latest :: "log_entry \<Rightarrow> db \<Rightarrow> db" where
  "update_latest latest_log d =
     mongo_update_tasks (le_task_id latest_log)
       (\<lambda>t. t\<lparr>t_current_stage := Some (case le_stage latest_log of None \<Rightarrow> ''unknown'' | Some s \<Rightarrow> s),
              t_last_log_message := Some (le_message latest_log),
              t_last_log_time := Some (le_timestamp latest_log),
              t_last_log_level := Some (le_level latest_log)\<rparr>) d"

definition save_logs :: "log_entry list \<Rightarrow> db \<Rightarrow> db" where
  "save_logs logs_to_save d =
     (if logs_to_save = [] then d
      else update_latest (last logs_to_save) (fold mongo_insert_log logs_to_save d))"

definition flush_task_logs :: "manager \<Rightarrow> db \<Rightarrow> string \<Rightarrow> (manager \<times> db) option" where
  "flush_task_logs m d task_id =
     (case acquire m of
        None \<Rightarrow> None
      | Some m1 \<Rightarrow>
          (case map_of (log_buffer m1) task_id of
             None \<Rightarrow> Some (release m1, d)
           | Some logs \<Rightarrow>
               if logs = [] then Some (release m1, d)
               else Some (release (m1\<lparr>log_buffer := AList.update task_id [] (log_buffer m1)\<rparr>),
                          save_logs logs d)))"

definition add_log :: "manager \<Rightarrow> db \<Rightarrow> string \<Rightarrow> log_entry \<Rightarrow> (manager \<times> db) option" where
  "add_log m d task_id entry =
     (case acquire m of
        None \<Rightarrow> None
      | Some m1 \<Rightarrow>
          (let buf = (case map_of (log_buffer m1) task_id of None \<Rightarrow> [] | Some b \<Rightarrow> b) @ [entry];
               m2 = m1\<lparr>log_buffer := AList.update task_id buf (log_buffer m1)\<rparr>
           in if length buf \<ge> max_buffer_size m2
              then (case flush_task_logs m2 d task_id of
                      None \<Rightarrow> None
                    | Some (m3, d3) \<Rightarrow> Some (release m3, d3))
              else Some (release m2, d)))"

text \<open>Successive \<open>add_log\<close> calls of one thread for one task; a call that never returns
  ends the sequence.\<close>

fun add_logs :: "manager \<Rightarrow> db \<Rightarrow> string \<Rightarrow> log_entry list \<Rightarrow> (manager \<times> db) option" where
  "add_logs m d task_id [] = Some (m, d)"
| "add_logs m d task_id (e # es) =
     (case add_log m d task_id e of
        None \<Rightarrow> None
      | Some (m1, d1) \<Rightarrow> add_logs m1 d1 task_id es)"

definition entry_no :: "nat \<Rightarrow> log_entry" where
  "entry_no i =
     \<lparr>le_task_id = ''T1'', le_factor_id = ''F1'', le_level = ''INFO'',
      le_message = replicate i CHR ''m'', le_timestamp = replicate i CHR ''t'',
      le_stage = Some ''default''\<rparr>"

definition empty_db :: db where
  "empty_db = \<lparr>user_factors = [], tasks = [], stage_logs = [],
                factor_analysis_results = [], next_oid = 0\<rparr>"

subsection \<open>Below the threshold, at the threshold\<close>

lemma add_log_below:
  assumes "\<not> buffer_lock m"
    and "length (case map_of (log_buffer m) tid of None \<Rightarrow> [] | Some b \<Rightarrow> b) + 1 < max_buffer_size m"
  shows "add_log m d tid e =
           Some (m\<lparr>log_buffer := AList.update tid
                     ((case map_of (log_buffer m) tid of None \<Rightarrow> [] | Some b \<Rightarrow> b) @ [e])
                     (log_buffer m)\<rparr>, d)"
  using assms by (simp add: add_log_def acquire_def release_def Let_def)

lemma add_log_at_threshold:
  assumes "\<not> buffer_lock m"
    and "max_buffer_size m \<le> length (case map_of (log_buffer m) tid of None \<Rightarrow> [] | Some b \<Rightarrow> b) + 1"
  shows "add_log m d tid e = None"
  using assms by (simp add: add_log_def acquire_def flush_task_logs_def Let_def)

lemma add_logs_below:
  assumes "\<not> buffer_lock m"
    and "length (case map_of (log_buffer m) tid of None \<Rightarrow> [] | Some b \<Rightarrow> b) + length es < max_buffer_size m"
  shows "add_logs m d tid es =
           Some (if es = [] then m
                 else m\<lparr>log_buffer := AList.update tid
                        ((case map_of (log_buffer m) tid of None \<Rightarrow> [] | Some b \<Rightarrow> b) @ es)
                        (log_buffer m)\<rparr>, d)"
  using assms
proof (induction es arbitrary: m)
  case Nil
  then show ?case by simp
next
  case (Cons e es)
  let ?b = "case map_of (log_buffer m) tid of None \<Rightarrow> [] | Some b \<Rightarrow> b"
  let ?m1 = "m\<lparr>log_buffer := AList.update tid (?b @ [e]) (log_buffer m)\<rparr>"
  have step: "add_log m d tid e = Some (?m1, d)"
    using Cons.prems by (intro add_log_below) auto
  have "add_logs ?m1 d tid es =
          Some (if es = [] then ?m1
                else ?m1\<lparr>log_buffer := AList.update tid
                       ((case map_of (log_buffer ?m1) tid of None \<Rightarrow> [] | Some b \<Rightarrow> b) @ es)
                       (log_buffer ?m1)\<rparr>, d)"
    using Cons.prems by (intro Cons.IH) (auto simp: update_conv')
  then show ?case using step by (simp add: update_conv')
qed

lemma add_logs_append:
  "add_logs m d tid (es @ [e]) =
     (case add_logs m d tid es of None \<Rightarrow> None | Some (m1, d1) \<Rightarrow> add_log m1 d1 tid e)"
  by (induction es arbitrary: m d) (auto split: option.splits)

lemma flush_free_lock:
  assumes "\<not> buffer_lock m" and "map_of (log_buffer m) tid = Some logs" and "logs \<noteq> []"
  shows "flush_task_logs m d tid =
           Some (m\<lparr>log_buffer := AList.update tid [] (log_buffer m)\<rparr>, save_logs logs d)"
  using assms by (simp add: flush_task_logs_def acquire_def release_def)

lemma fold_insert_logs:
  "stage_logs (fold mongo_insert_log es d) =
     stage_logs d @ map (\<lambda>(i, e). log_record i e) (zip [next_oid d ..< next_oid d + length es] es)"
proof (induction es arbitrary: d)
  case Nil
  then show ?case by simp
next
  case (Cons e es)
  have "[next_oid d ..< next_oid d + length (e # es)] =
          next_oid d # [Suc (next_oid d) ..< Suc (next_oid d) + length es]"
    by (simp add: upt_rec)
  then show ?case by (simp add: Cons.IH) (simp add: mongo_insert_log_def)
qed


lemma log_record_messages:
  "length ns = length es \<Longrightarrow>
     map sl_message (map (\<lambda>(i, e). log_record i e) (zip ns es)) = map le_message es"
  by (induction ns es rule: list_induct2) (simp_all add: log_record_def)

lemma flush_persists_in_enqueue_order:
  assumes "\<not> buffer_lock m" and "map_of (log_buffer m) tid = Some logs" and "logs \<noteq> []"
    and "flush_task_logs m d tid = Some (m', d')"
  shows "map sl_message (stage_logs d') = map sl_message (stage_logs d) @ map le_message logs"
proof -
  have d': "d' = save_logs logs d"
    using assms flush_free_lock [of m tid logs d] by simp
  have "map sl_message (stage_logs (fold mongo_insert_log logs d)) =
          map sl_message (stage_logs d) @ map le_message logs"
    by (simp only: fold_insert_logs map_append log_record_messages length_upt add_diff_cancel_left')
  then show ?thesis
    using assms(3) by (simp add: d' save_logs_def update_latest_def mongo_update_tasks_def)
qed

text \<open>
  C9.  The claim: every \<open>add_log\<close> call returns, also the one that raises a task's buffer
  to the threshold.  The code: that call enters \<open>_flush_task_logs\<close> while it holds
  \<open>buffer_lock\<close>, and \<open>_flush_task_logs\<close> waits for the same lock, so the call never
  returns.  The theorem states what the code does whenever the lock is free at the call and
  the new entry brings the task's buffer to \<open>max_buffer_size\<close>.
\<close>

theorem add_log_threshold_never_returns:
  assumes "\<not> buffer_lock m"
    and "max_buffer_size m \<le> length (case map_of (log_buffer m) tid of None \<Rightarrow> [] | Some b \<Rightarrow> b) + 1"
  shows "add_log m d tid e = None"
  using assms by (rule add_log_at_threshold)

theorem add_log_threshold_never_returns_witness:
  "\<not> buffer_lock (new_manager\<lparr>log_buffer := [(''T1'', map entry_no [1..<50])]\<rparr>) \<and>
   add_log (new_manager\<lparr>log_buffer := [(''T1'', map entry_no [1..<50])]\<rparr>) empty_db ''T1''
     (entry_no 50) = None"
  using add_log_threshold_never_returns
    [of "new_manager\<lparr>log_buffer := [(''T1'', map entry_no [1..<50])]\<rparr>" "''T1''" empty_db
        "entry_no 50"]
  by (simp add: new_manager_def)

text \<open>
  C4.  The claim: from an empty buffer, 49 \<open>add_log\<close> calls for a task persist nothing and
  the 50th triggers one flush that appends the 50 entries in enqueue order and updates the
  task's \<open>last_log\<close> fields.  The code: the first 49 calls return with the entries buffered
  and the store untouched; the 50th never returns (the lock of C9), so no flush takes place
  in it.
\<close>

theorem add_log_fiftieth_call_no_flush:
  assumes "length es = 49"
  shows "add_logs new_manager d tid es = Some (new_manager\<lparr>log_buffer := [(tid, es)]\<rparr>, d) \<and>
         add_logs new_manager d tid (es @ [e]) = None"
proof -
  have ne: "es \<noteq> []" using assms by auto
  have first: "add_logs new_manager d tid es =
                 Some (new_manager\<lparr>log_buffer := [(tid, es)]\<rparr>, d)"
    using add_logs_below [of new_manager tid es d] assms ne
    by (simp add: new_manager_def)
  have "add_log (new_manager\<lparr>log_buffer := [(tid, es)]\<rparr>) d tid e = None"
    using assms by (intro add_log_at_threshold) (simp_all add: new_manager_def)
  then show ?thesis using first by (simp add: add_logs_append)
qed

theorem add_log_fiftieth_call_no_flush_witness:
  "add_logs new_manager empty_db ''T1'' (map entry_no [1..<50]) =
     Some (new_manager\<lparr>log_buffer := [(''T1'', map entry_no [1..<50])]\<rparr>, empty_db) \<and>
   add_logs new_manager empty_db ''T1'' (map entry_no [1..<50] @ [entry_no 50]) = None"
  using add_log_fiftieth_call_no_flush [of "map entry_no [1..<50]" empty_db "''T1''" "entry_no 50"]
  by simp


subsection \<open>The handler of a task's logger\<close>



































section \<open>Factor management: \<open>create_factor\<close>, \<open>update_factor\<close>\<close>

text \<open>
  A service call returns \<open>ResultData.success\<close>, returns \<open>ResultData.fail(code, ...)\<close>, or
  raises \<open>HTTPException(status_code)\<close>.  \<open>ObjectId(s)\<close> accepts the 24 hexadecimal digits
  of an identifier and raises on any other string; an identifier is the number they denote.
\<close>

datatype 'a result_data = Success 'a | Fail string | HTTPException nat

definition hex_val :: "char \<Rightarrow> nat option" where
  "hex_val c =
     (let n = (of_char c :: nat)
      in if 48 \<le> n \<and> n \<le> 57 then Some (n - 48)
         else if 97 \<le> n \<and> n \<le> 102 then Some (n - 87)
         else if 65 \<le> n \<and> n \<le> 70 then Some (n - 55)
         else None)"

fun hex_num :: "nat \<Rightarrow> string \<Rightarrow> nat option" where
  "hex_num acc [] = Some acc"
| "hex_num acc (c # cs) =
     (case hex_val c of None \<Rightarrow> None | Some v \<Rightarrow> hex_num (16 * acc + v) cs)"

definition ObjectId :: "string \<Rightarrow> nat option" where
  "ObjectId s = (if length s = 24 then hex_num 0 s else None)"

definition validate_object_id :: "string \<Rightarrow> nat result_data" where
  "validate_object_id factor_id =
     (case ObjectId factor_id of None \<Rightarrow> HTTPException 400 | Some i \<Rightarrow> Success i)"

definition uf_user_id :: "user_factor \<Rightarrow> string" where
  "uf_user_id f = cr_user_id (uf_def f)"

definition uf_factor_name :: "user_factor \<Rightarrow> string" where
  "uf_factor_name f = cr_factor_name (uf_def f)"

text \<open>\<open>check_factor_exists\<close>: \<open>None\<close> when \<open>ObjectId(exclude_id)\<close> raises.  An absent or
  empty \<open>exclude_id\<close> adds no condition on \<open>_id\<close>.\<close>

definition check_factor_exists :: "string \<Rightarrow> string \<Rightarrow> string option \<Rightarrow> db \<Rightarrow> bool option" where
  "check_factor_exists user_id factor_name exclude_id d =
     (let same = filter (\<lambda>f. uf_user_id f = user_id \<and> uf_factor_name f = factor_name)
                   (user_factors d)
      in case exclude_id of
           None \<Rightarrow> Some (same \<noteq> [])
         | Some x \<Rightarrow>
             if x = [] then Some (same \<noteq> [])
             else (case ObjectId x of
                     None \<Rightarrow> None
                   | Some i \<Rightarrow> Some (filter (\<lambda>f. uf_oid f \<noteq> i) same \<noteq> [])))"

definition mongo_insert_factor :: "string \<Rightarrow> factor_request \<Rightarrow> db \<Rightarrow> nat \<times> db" where
  "mongo_insert_factor now factor d =
     (next_oid d,
      d\<lparr>user_factors := user_factors d @
           [\<lparr>uf_oid = next_oid d, uf_def = factor, uf_created_at = Some now,
             uf_updated_at = Some now, uf_current_task_id = None\<rparr>],
        next_oid := Suc (next_oid d)\<rparr>)"

definition mongo_update_factors :: "nat \<Rightarrow> (user_factor \<Rightarrow> user_factor) \<Rightarrow> db \<Rightarrow> db" where
  "mongo_update_factors i upd d =
     d\<lparr>user_factors := map (\<lambda>f. if uf_oid f = i then upd f else f) (user_factors d)\<rparr>"

definition create_factor :: "string \<Rightarrow> factor_request \<Rightarrow> db \<Rightarrow> nat result_data \<times> db" where
  "create_factor now factor d =
     (case check_factor_exists (cr_user_id factor) (cr_factor_name factor) None d of
        None \<Rightarrow> (Fail ''500'', d)
      | Some True \<Rightarrow> (Fail ''409'', d)
      | Some False \<Rightarrow>
          (let (i, d') = mongo_insert_factor now factor d in (Success i, d')))"

definition update_factor ::
  "string \<Rightarrow> factor_request \<Rightarrow> string \<Rightarrow> db \<Rightarrow> string result_data \<times> db" where
  "update_factor now factor factor_id d =
     (case validate_object_id factor_id of
        HTTPException c \<Rightarrow> (HTTPException c, d)
      | Fail c \<Rightarrow> (Fail c, d)
      | Success object_id \<Rightarrow>
          if filter (\<lambda>f. uf_oid f = object_id) (user_factors d) = [] then (Fail ''404'', d)
          else (case check_factor_exists (cr_user_id factor) (cr_factor_name factor)
                       (Some factor_id) d of
                  None \<Rightarrow> (Fail ''500'', d)
                | Some True \<Rightarrow> (Fail ''409'', d)
                | Some False \<Rightarrow>
                    (Success factor_id,
                     mongo_update_factors object_id
                       (\<lambda>f. f\<lparr>uf_def := factor, uf_updated_at := Some now\<rparr>) d)))"

text \<open>The invariant of \<open>user_factors\<close>: no two documents share \<open>(user_id, factor_name)\<close>.
  The store keeps \<open>_id\<close> unique and below its counter.\<close>

definition factor_key :: "user_factor \<Rightarrow> string \<times> string" where
  "factor_key f = (uf_user_id f, uf_factor_name f)"

definition names_unique :: "db \<Rightarrow> bool" where
  "names_unique d = distinct (map factor_key (user_factors d))"

definition ids_fresh :: "db \<Rightarrow> bool" where
  "ids_fresh d = (distinct (map uf_oid (user_factors d)) \<and>
                  list_all (\<lambda>f. uf_oid f < next_oid d) (user_factors d))"

definition req_example :: "string \<Rightarrow> string \<Rightarrow> factor_request" where
  "req_example u n =
     \<lparr>cr_user_id = u, cr_name = ''Grail'', cr_factor_name = n, cr_factor_type = ''stock'',
      cr_is_persistent = False, cr_cron = None, cr_factor_start_day = None,
      cr_code = ''CLOSE / OPEN - 1'', cr_code_type = ''formula'', cr_tags = ''momentum'',
      cr_status = 0, cr_describe = ''intraday return'', cr_params = None\<rparr>"

definition db_two_factors :: db where
  "db_two_factors =
     \<lparr>user_factors =
        [\<lparr>uf_oid = 1, uf_def = req_example ''2'' ''alpha'', uf_created_at = Some ''2024-01-01'',
          uf_updated_at = Some ''2024-01-01'', uf_current_task_id = None\<rparr>,
         \<lparr>uf_oid = 2, uf_def = req_example ''2'' ''beta'', uf_created_at = Some ''2024-01-02'',
          uf_updated_at = Some ''2024-01-02'', uf_current_task_id = None\<rparr>],
      tasks = [], stage_logs = [], factor_analysis_results = [], next_oid = 3\<rparr>"

lemma filter_nonempty_iff: "filter P xs \<noteq> [] \<longleftrightarrow> (\<exists>x \<in> set xs. P x)"
  by (simp add: filter_empty_conv)

lemma check_exists_plain:
  "check_factor_exists u n None d = Some ((u, n) \<in> set (map factor_key (user_factors d)))"
  by (auto simp: check_factor_exists_def factor_key_def filter_empty_conv image_iff)

lemma create_factor_duplicate:
  assumes "(cr_user_id r, cr_factor_name r) \<in> set (map factor_key (user_factors d))"
  shows "create_factor now r d = (Fail ''409'', d)"
  using assms by (simp add: create_factor_def check_exists_plain)

lemma create_factor_names_unique:
  assumes "names_unique d"
  shows "names_unique (snd (create_factor now r d))"
proof (cases "(cr_user_id r, cr_factor_name r) \<in> set (map factor_key (user_factors d))")
  case True
  then show ?thesis using assms by (simp add: create_factor_duplicate)
next
  case False
  then have "create_factor now r d = (Success (next_oid d), snd (mongo_insert_factor now r d))"
    by (simp add: create_factor_def check_exists_plain mongo_insert_factor_def)
  moreover have "names_unique (snd (mongo_insert_factor now r d))"
    using assms False
    by (simp add: names_unique_def mongo_insert_factor_def factor_key_def uf_user_id_def
        uf_factor_name_def)
  ultimately show ?thesis by simp
qed

lemma create_factor_ids_fresh:
  assumes "ids_fresh d"
  shows "ids_fresh (snd (create_factor now r d))"
proof -
  have "ids_fresh (snd (mongo_insert_factor now r d))"
    using assms
    by (auto simp: ids_fresh_def mongo_insert_factor_def list_all_iff intro: less_SucI)
  then show ?thesis
    using assms by (auto simp: create_factor_def split: option.splits bool.splits prod.splits)
qed

lemma update_one_keeps_distinct:
  assumes "distinct (map factor_key fs)" and "distinct (map uf_oid fs)"
    and "\<forall>f \<in> set fs. uf_oid f \<noteq> i \<longrightarrow> factor_key f \<noteq> factor_key (upd f0)"
    and "\<And>f. uf_oid f = i \<Longrightarrow> factor_key (upd f) = factor_key (upd f0)"
  shows "distinct (map factor_key (map (\<lambda>f. if uf_oid f = i then upd f else f) fs))"
  using assms(1-3)
proof (induction fs)
  case Nil
  then show ?case by simp
next
  case (Cons f fs)
  let ?u = "\<lambda>f. if uf_oid f = i then upd f else f"
  have IH: "distinct (map factor_key (map ?u fs))"
    using Cons by simp
  show ?case
  proof (cases "uf_oid f = i")
    case True
    then have others: "\<forall>g \<in> set fs. uf_oid g \<noteq> i"
      using Cons.prems(2) by (metis distinct.simps(2) image_eqI list.simps(9) set_map)
    then have same: "map ?u fs = fs"
      by (simp add: map_idI)
    have "factor_key (upd f) \<notin> set (map factor_key fs)"
      using others Cons.prems(3) assms(4) [OF True] by auto
    then show ?thesis using True same Cons.prems(1) by simp
  next
    case False
    have "factor_key f \<notin> set (map factor_key (map ?u fs))"
    proof
      assume "factor_key f \<in> set (map factor_key (map ?u fs))"
      then obtain g where g: "g \<in> set fs" "factor_key f = factor_key (?u g)"
        by auto
      show False
      proof (cases "uf_oid g = i")
        case True
        then have "factor_key f = factor_key (upd f0)"
          using g(2) assms(4) by simp
        then show False using False Cons.prems(3) by simp
      next
        case False
        then show False using g Cons.prems(1) by auto
      qed
    qed
    then show ?thesis using False IH by simp
  qed
qed

lemma update_factor_names_unique:
  assumes "names_unique d" and "ids_fresh d"
  shows "names_unique (snd (update_factor now r fid d))"
proof (cases "\<exists>i. ObjectId fid = Some i \<and>
                  filter (\<lambda>f. uf_oid f = i) (user_factors d) \<noteq> [] \<and>
                  check_factor_exists (cr_user_id r) (cr_factor_name r) (Some fid) d = Some False")
  case False
  then have "snd (update_factor now r fid d) = d"
    by (auto simp: update_factor_def validate_object_id_def
        split: option.splits bool.splits result_data.splits)
  then show ?thesis using assms by simp
next
  case True
  then obtain i where i: "ObjectId fid = Some i"
    and ex: "check_factor_exists (cr_user_id r) (cr_factor_name r) (Some fid) d = Some False"
    and found: "filter (\<lambda>f. uf_oid f = i) (user_factors d) \<noteq> []"
    by blast
  have fid: "fid \<noteq> []" using i by (auto simp: ObjectId_def)
  have free: "\<forall>f \<in> set (user_factors d). uf_oid f \<noteq> i \<longrightarrow>
                factor_key f \<noteq> (cr_user_id r, cr_factor_name r)"
    using ex i fid
    by (auto simp: check_factor_exists_def factor_key_def filter_empty_conv)
  have "distinct (map factor_key
          (map (\<lambda>f. if uf_oid f = i then f\<lparr>uf_def := r, uf_updated_at := Some now\<rparr> else f) (user_factors d)))"
  proof (rule update_one_keeps_distinct [where ?f0.0 = "hd (user_factors d)"])
    show "distinct (map factor_key (user_factors d))"
      using assms(1) by (simp add: names_unique_def)
    show "distinct (map uf_oid (user_factors d))"
      using assms(2) by (simp add: ids_fresh_def)
    show "\<forall>f \<in> set (user_factors d). uf_oid f \<noteq> i \<longrightarrow>
            factor_key f \<noteq> factor_key ((hd (user_factors d))\<lparr>uf_def := r, uf_updated_at := Some now\<rparr>)"
      using free by (simp add: factor_key_def uf_user_id_def uf_factor_name_def)
    show "\<And>f. uf_oid f = i \<Longrightarrow>
            factor_key (f\<lparr>uf_def := r, uf_updated_at := Some now\<rparr>) = factor_key ((hd (user_factors d))\<lparr>uf_def := r, uf_updated_at := Some now\<rparr>)"
      by (simp add: factor_key_def uf_user_id_def uf_factor_name_def)
  qed
  moreover have "snd (update_factor now r fid d) =
                   mongo_update_factors i (\<lambda>f. f\<lparr>uf_def := r, uf_updated_at := Some now\<rparr>) d"
    using i ex found by (simp add: update_factor_def validate_object_id_def)
  ultimately show ?thesis
    by (simp add: names_unique_def mongo_update_factors_def)
qed

lemma update_factor_collision:
  assumes "ObjectId fid = Some i" and "g \<in> set (user_factors d)" and "uf_oid g = i"
    and "f \<in> set (user_factors d)" and "uf_oid f \<noteq> i"
    and "factor_key f = (cr_user_id r, cr_factor_name r)"
  shows "update_factor now r fid d = (Fail ''409'', d)"
proof -
  have fid: "fid \<noteq> []" using assms(1) by (auto simp: ObjectId_def)
  have "filter (\<lambda>f. uf_oid f = i) (user_factors d) \<noteq> []"
    using assms(2,3) by (auto simp: filter_empty_conv)
  moreover have "check_factor_exists (cr_user_id r) (cr_factor_name r) (Some fid) d = Some True"
    using assms fid
    by (auto simp: check_factor_exists_def factor_key_def filter_empty_conv)
  ultimately show ?thesis
    using assms(1) by (simp add: update_factor_def validate_object_id_def)
qed


lemma map_oid_update:
  "map uf_oid (map (\<lambda>f. if uf_oid f = i then f\<lparr>uf_def := r, uf_updated_at := Some now\<rparr> else f) fs) = map uf_oid fs"
  by (induction fs) simp_all

lemma update_factor_ids_fresh:
  assumes "ids_fresh d"
  shows "ids_fresh (snd (update_factor now r fid d))"
proof -
  have "ids_fresh (mongo_update_factors i (\<lambda>f. f\<lparr>uf_def := r, uf_updated_at := Some now\<rparr>) d)" for i
  proof -
    let ?fs = "map (\<lambda>f. if uf_oid f = i then f\<lparr>uf_def := r, uf_updated_at := Some now\<rparr> else f) (user_factors d)"
    have "distinct (map uf_oid ?fs)"
      using assms by (simp only: map_oid_update ids_fresh_def)
    moreover have "list_all (\<lambda>f. uf_oid f < next_oid d) ?fs"
      using assms by (auto simp: ids_fresh_def list_all_iff)
    ultimately show ?thesis
      by (simp add: ids_fresh_def mongo_update_factors_def)
  qed
  then show ?thesis
    using assms
    by (auto simp: update_factor_def validate_object_id_def
        split: option.splits bool.splits result_data.splits)
qed

lemma db_two_factors_ok: "names_unique db_two_factors \<and> ids_fresh db_two_factors"
  by (simp add: names_unique_def ids_fresh_def db_two_factors_def factor_key_def
      uf_user_id_def uf_factor_name_def req_example_def)

lemma ObjectId_two: "ObjectId ''000000000000000000000002'' = Some 2"
  by (simp add: ObjectId_def hex_val_def)

text \<open>
  C8.  On a store whose \<open>(user_id, factor_name)\<close> pairs are unique: \<open>create_factor\<close> for a
  pair that is already present answers 409 and leaves the store as it was; every
  \<open>create_factor\<close> and every \<open>update_factor\<close> call leaves the pairs unique; and
  \<open>update_factor\<close> answers 409, changing nothing, when another factor already has the
  requested pair.
\<close>

theorem create_factor_keeps_names_unique:
  assumes "names_unique d" and "ids_fresh d"
  shows "((cr_user_id r, cr_factor_name r) \<in> set (map factor_key (user_factors d)) \<longrightarrow>
            create_factor now r d = (Fail ''409'', d)) \<and>
         names_unique (snd (create_factor now r d)) \<and> ids_fresh (snd (create_factor now r d)) \<and>
         names_unique (snd (update_factor now r fid d)) \<and> ids_fresh (snd (update_factor now r fid d)) \<and>
         (\<forall>i g f. ObjectId fid = Some i \<and> g \<in> set (user_factors d) \<and> uf_oid g = i \<and>
                  f \<in> set (user_factors d) \<and> uf_oid f \<noteq> i \<and>
                  factor_key f = (cr_user_id r, cr_factor_name r) \<longrightarrow>
                  update_factor now r fid d = (Fail ''409'', d))"
proof (intro conjI impI allI)
  show "create_factor now r d = (Fail ''409'', d)"
    if "(cr_user_id r, cr_factor_name r) \<in> set (map factor_key (user_factors d))"
    using that by (rule create_factor_duplicate)
  show "names_unique (snd (create_factor now r d))"
    using assms(1) by (rule create_factor_names_unique)
  show "ids_fresh (snd (create_factor now r d))"
    using assms(2) by (rule create_factor_ids_fresh)
  show "names_unique (snd (update_factor now r fid d))"
    using assms by (rule update_factor_names_unique)
  show "ids_fresh (snd (update_factor now r fid d))"
    using assms(2) by (rule update_factor_ids_fresh)
  show "update_factor now r fid d = (Fail ''409'', d)"
    if "ObjectId fid = Some i \<and> g \<in> set (user_factors d) \<and> uf_oid g = i \<and>
        f \<in> set (user_factors d) \<and> uf_oid f \<noteq> i \<and>
        factor_key f = (cr_user_id r, cr_factor_name r)" for i g f
    using that update_factor_collision [where fid = fid and i = i and g = g and d = d and f = f and r = r
        and now = now] by blast
qed

theorem create_factor_keeps_names_unique_witness:
  "names_unique db_two_factors \<and> ids_fresh db_two_factors \<and>
   (''2'', ''alpha'') \<in> set (map factor_key (user_factors db_two_factors)) \<and>
   create_factor ''2024-02-01'' (req_example ''2'' ''alpha'') db_two_factors = (Fail ''409'', db_two_factors) \<and>
   update_factor ''2024-02-01'' (req_example ''2'' ''alpha'') ''000000000000000000000002'' db_two_factors =
     (Fail ''409'', db_two_factors) \<and>
   names_unique (snd (create_factor ''2024-02-01'' (req_example ''2'' ''gamma'') db_two_factors)) \<and>
   length (user_factors (snd (create_factor ''2024-02-01'' (req_example ''2'' ''gamma'') db_two_factors))) = 3"
proof -
  have mem: "(''2'', ''alpha'') \<in> set (map factor_key (user_factors db_two_factors))"
    by (simp add: db_two_factors_def factor_key_def uf_user_id_def uf_factor_name_def
        req_example_def)
  have key: "cr_user_id (req_example u n) = u" "cr_factor_name (req_example u n) = n" for u n
    by (simp_all add: req_example_def)
  note main = create_factor_keeps_names_unique [OF db_two_factors_ok [THEN conjunct1]
      db_two_factors_ok [THEN conjunct2]]
  have c: "create_factor ''2024-02-01'' (req_example ''2'' ''alpha'') db_two_factors =
             (Fail ''409'', db_two_factors)"
    using main [where r = "req_example ''2'' ''alpha''" and now = "''2024-02-01''" and fid = "[]"] mem by (simp add: key)
  have u: "update_factor ''2024-02-01'' (req_example ''2'' ''alpha'') ''000000000000000000000002''
             db_two_factors = (Fail ''409'', db_two_factors)"
  proof -
    let ?g = "\<lparr>uf_oid = 2, uf_def = req_example ''2'' ''beta'',
               uf_created_at = Some ''2024-01-02'', uf_updated_at = Some ''2024-01-02'',
               uf_current_task_id = None\<rparr>"
    let ?f = "\<lparr>uf_oid = 1, uf_def = req_example ''2'' ''alpha'',
               uf_created_at = Some ''2024-01-01'', uf_updated_at = Some ''2024-01-01'',
               uf_current_task_id = None\<rparr>"
    have "ObjectId ''000000000000000000000002'' = Some 2 \<and>
          ?g \<in> set (user_factors db_two_factors) \<and> uf_oid ?g = 2 \<and>
          ?f \<in> set (user_factors db_two_factors) \<and> uf_oid ?f \<noteq> 2 \<and>
          factor_key ?f = (cr_user_id (req_example ''2'' ''alpha''),
                           cr_factor_name (req_example ''2'' ''alpha''))"
      by (simp add: ObjectId_two db_two_factors_def factor_key_def uf_user_id_def
          uf_factor_name_def key)
    then show ?thesis
      using main [where r = "req_example ''2'' ''alpha''" and now = "''2024-02-01''"
          and fid = "''000000000000000000000002''"] by blast
  qed
  have n: "names_unique (snd (create_factor ''2024-02-01'' (req_example ''2'' ''gamma'') db_two_factors))"
    using main [where r = "req_example ''2'' ''gamma''" and now = "''2024-02-01''" and fid = "[]"] by simp
  have l: "length (user_factors (snd (create_factor ''2024-02-01'' (req_example ''2'' ''gamma'')
             db_two_factors))) = 3"
    by (simp add: create_factor_def check_exists_plain key)
       (simp add: db_two_factors_def factor_key_def uf_user_id_def uf_factor_name_def key
          mongo_insert_factor_def)
  show ?thesis using db_two_factors_ok mem c u n l by simp
qed


section \<open>Job runtime: \<open>validate_factor_params\<close>, \<open>factor_analysis\<close>, \<open>run_factor\<close>\<close>

subsection \<open>Parameter validation\<close>




definition method_std_cn :: string where
  "method_std_cn = [CHR 0xE6, CHR 0xA0, CHR 0x87, CHR 0xE5, CHR 0x87, CHR 0x86,
                    CHR 0xE5, CHR 0xB7, CHR 0xAE]"

definition method_median_cn :: string where
  "method_median_cn = [CHR 0xE4, CHR 0xB8, CHR 0xAD, CHR 0xE4, CHR 0xBD, CHR 0x8D,
                       CHR 0xE6, CHR 0x95, CHR 0xB0]"







subsection \<open>Preprocessing: outlier trimming\<close>

text \<open>
  The trimming step of \<open>factor_analysis\<close>, applied to each date's cross-section
  (\<open>groupby('date').apply\<close>).  \<open>ext_out_3std_list\<close> and \<open>ext_out_mad\<close> live in
  \<open>factor_func\<close>, which is not part of the sources at hand: they are parameters.
\<close>

definition trim_extremes ::
  "('g \<Rightarrow> 'g) \<Rightarrow> ('g \<Rightarrow> 'g) \<Rightarrow> string \<Rightarrow> 'g list \<Rightarrow> 'g list" where
  "trim_extremes ext_out_3std_list ext_out_mad extreme_value_processing df_factor =
     (if extreme_value_processing = method_std_cn \<or> extreme_value_processing = ''std''
      then map ext_out_3std_list df_factor
      else map ext_out_3std_list df_factor)"

subsection \<open>Task execution\<close>

text \<open>
  A task execution is the list of store calls it makes, in order.  What the absent parts
  compute is the environment of a run: what \<open>get_custom_factor\<close> returns, the exception (its
  \<open>str\<close>) a stage raises, if any, and the tables of the bundle.  Stage \<open>k\<close> is the work done
  after \<open>process_status = k\<close> is written.
\<close>

datatype db_op =
    Task_process_status string int
  | Task_process_failed string string
  | Task_completed string
  | Task_failed string string
  | Factor_completed nat string
  | Factor_failed nat
  | Insert_bundle result_bundle

datatype factor_frame = No_frame | Empty_frame | Frame | Frame_raises string

record run_env =
  custom_factor :: factor_frame
  stage_error :: "nat \<Rightarrow> string option"
  computed_one_group :: "one_group option"
  computed_analysis :: "(string \<times> string) list option"

text \<open>Modelled from the spec: \<open>factor.inset_to_database(factor_id, task_id)\<close> is not in the
  sources at hand; per the spec's stage 8 it writes the statistics to the result store as
  one bundle keyed by \<open>task_id\<close>.\<close>

definition inset_to_database :: "run_env \<Rightarrow> string \<Rightarrow> db_op list" where
  "inset_to_database env task_id =
     [Insert_bundle \<lparr>b_task_id = task_id, b_one_group_data = computed_one_group env,
                     b_factor_data_analysis = computed_analysis env\<rparr>]"

definition stage :: "run_env \<Rightarrow> string \<Rightarrow> nat \<Rightarrow> db_op list \<times> string option
                       \<Rightarrow> db_op list \<times> string option" where
  "stage env task_id k rest =
     (case stage_error env k of
        Some e \<Rightarrow> ([Task_process_status task_id (int k),
                    Task_process_failed task_id (''factor analysis failed: '' @ e)], Some e)
      | None \<Rightarrow> (Task_process_status task_id (int k) # fst rest, snd rest))"

text \<open>\<open>factor_analysis\<close>: the writes and the exception it re-raises, if any.\<close>

definition factor_analysis :: "run_env \<Rightarrow> string \<Rightarrow> db_op list \<times> string option" where
  "factor_analysis env task_id =
     stage env task_id 1 (stage env task_id 2 (stage env task_id 3 (stage env task_id 4
       (stage env task_id 5 (stage env task_id 6 (stage env task_id 7
         (case stage_error env 8 of
            Some e \<Rightarrow> ([Task_process_status task_id 8,
                        Task_process_failed task_id (''factor analysis failed: '' @ e)], Some e)
          | None \<Rightarrow> (Task_process_status task_id 8 # inset_to_database env task_id @
                       [Task_process_status task_id 9], None))))))))"

definition run_failed :: "string \<Rightarrow> nat \<Rightarrow> string \<Rightarrow> db_op list" where
  "run_failed task_id object_id e = [Task_failed task_id e, Factor_failed object_id]"

text \<open>\<open>run_factor_analysis\<close>.  \<open>Frame_raises\<close> is an exception out of the
  \<open>get_custom_factor\<close> call (\<open>int(user_id)\<close> included); on \<open>None\<close> the next line,
  \<open>df_factor.tail(5)\<close>, raises; on an empty frame the function returns early.\<close>

definition run_factor_analysis :: "run_env \<Rightarrow> string \<Rightarrow> nat \<Rightarrow> db_op list" where
  "run_factor_analysis env task_id object_id =
     (case custom_factor env of
        Frame_raises e \<Rightarrow> run_failed task_id object_id e
      | No_frame \<Rightarrow> run_failed task_id object_id ''AttributeError''
      | Empty_frame \<Rightarrow> []
      | Frame \<Rightarrow>
          (case factor_analysis env task_id of
             (ops, None) \<Rightarrow> ops @ [Task_completed task_id, Factor_completed object_id task_id]
           | (ops, Some e) \<Rightarrow> ops @ run_failed task_id object_id e))"

fun process_status_writes :: "db_op list \<Rightarrow> int list" where
  "process_status_writes [] = []"
| "process_status_writes (Task_process_status t k # ops) = k # process_status_writes ops"
| "process_status_writes (Task_process_failed t e # ops) = (- 1) # process_status_writes ops"
| "process_status_writes (_ # ops) = process_status_writes ops"



subsection \<open>Admission: \<open>run_factor\<close>\<close>








subsection \<open>The order of the stage writes\<close>

definition success_ops :: "run_env \<Rightarrow> string \<Rightarrow> db_op list" where
  "success_ops env task_id =
     map (\<lambda>k. Task_process_status task_id k) [1, 2, 3, 4, 5, 6, 7, 8] @
     inset_to_database env task_id @ [Task_process_status task_id 9]"

definition is_bundle_of :: "string \<Rightarrow> db_op \<Rightarrow> bool" where
  "is_bundle_of task_id op = (case op of Insert_bundle b \<Rightarrow> b_task_id b = task_id | _ \<Rightarrow> False)"

definition is_task_failed :: "string \<Rightarrow> db_op \<Rightarrow> bool" where
  "is_task_failed task_id op = (case op of Task_failed t e \<Rightarrow> t = task_id | _ \<Rightarrow> False)"

definition env_all_ok :: run_env where
  "env_all_ok = \<lparr>custom_factor = Frame, stage_error = (\<lambda>k. None),
                  computed_one_group = None, computed_analysis = None\<rparr>"

definition env_fails_at :: "nat \<Rightarrow> run_env" where
  "env_fails_at n = \<lparr>custom_factor = Frame,
                     stage_error = (\<lambda>k. if k = n then Some ''boom'' else None),
                     computed_one_group = None, computed_analysis = None\<rparr>"

lemma factor_analysis_returns:
  "snd (factor_analysis env tid) = None \<Longrightarrow> fst (factor_analysis env tid) = success_ops env tid"
  by (simp add: factor_analysis_def stage_def success_ops_def split: option.splits)

lemma factor_analysis_raises:
  assumes "snd (factor_analysis env tid) = Some e"
  shows "Task_completed tid \<notin> set (fst (factor_analysis env tid)) \<and>
         (let ws = process_status_writes (fst (factor_analysis env tid))
          in ws = take (length ws - 1) [1, 2, 3, 4, 5, 6, 7, 8, 9] @ [- 1])"
  using assms
  by (simp add: factor_analysis_def stage_def inset_to_database_def split: option.splits)

lemma success_ops_writes:
  "process_status_writes (success_ops env tid) = [1, 2, 3, 4, 5, 6, 7, 8, 9]"
  by (simp add: success_ops_def inset_to_database_def)


lemma run_completed_form:
  assumes "Task_completed tid \<in> set (run_factor_analysis env tid oid)"
  shows "run_factor_analysis env tid oid =
           success_ops env tid @ [Task_completed tid, Factor_completed oid tid]"
proof (cases "custom_factor env")
  case Frame
  show ?thesis
  proof (cases "snd (factor_analysis env tid)")
    case None
    then have "factor_analysis env tid = (success_ops env tid, None)"
      using factor_analysis_returns [of env tid] by (simp add: prod_eq_iff)
    then show ?thesis using Frame by (simp add: run_factor_analysis_def)
  next
    case (Some e)
    then have "run_factor_analysis env tid oid =
                 fst (factor_analysis env tid) @ run_failed tid oid e"
      using Frame by (cases "factor_analysis env tid") (simp add: run_factor_analysis_def)
    then show ?thesis
      using assms factor_analysis_raises [OF Some] by (simp add: run_failed_def)
  qed
qed (use assms in \<open>simp_all add: run_factor_analysis_def run_failed_def\<close>)

lemma run_writes_forms:
  "(let ws = process_status_writes (run_factor_analysis env tid oid)
    in ws = take (length ws) [1, 2, 3, 4, 5, 6, 7, 8, 9] \<or>
       (ws = take (length ws - 1) [1, 2, 3, 4, 5, 6, 7, 8, 9] @ [- 1] \<and>
        Task_completed tid \<notin> set (run_factor_analysis env tid oid) \<and>
        list_ex (is_task_failed tid) (run_factor_analysis env tid oid)))"
proof (cases "custom_factor env")
  case Frame
  have psw_app: "process_status_writes (xs @ ys) = process_status_writes xs @ process_status_writes ys"
    for xs ys
    by (induction xs rule: process_status_writes.induct) simp_all
  show ?thesis
  proof (cases "snd (factor_analysis env tid)")
    case None
    then have "factor_analysis env tid = (success_ops env tid, None)"
      using factor_analysis_returns [of env tid] by (simp add: prod_eq_iff)
    then show ?thesis
      using Frame by (simp add: run_factor_analysis_def psw_app success_ops_writes)
  next
    case (Some e)
    then have run: "run_factor_analysis env tid oid =
                      fst (factor_analysis env tid) @ run_failed tid oid e"
      using Frame by (cases "factor_analysis env tid") (simp add: run_factor_analysis_def)
    have "process_status_writes (run_factor_analysis env tid oid) =
            process_status_writes (fst (factor_analysis env tid))"
      by (simp add: run psw_app run_failed_def)
    then show ?thesis
      using factor_analysis_raises [OF Some]
      by (simp add: Let_def run run_failed_def is_task_failed_def)
  qed
qed (simp_all add: run_factor_analysis_def run_failed_def)

text \<open>
  C3.  For every task execution (every frame, every stage outcome): the values written to
  \<open>process_status\<close> are, in order, an initial segment of 1, ..., 9, followed by -1 only when
  the run failed (then the task is marked failed and never completed); and when the task is
  marked completed (\<open>status = 2\<close>), all of 1, ..., 9 were written, none skipped, and the
  bundle of this \<open>task_id\<close> was inserted before that mark.
\<close>

theorem process_status_written_in_order:
  "(let ops = run_factor_analysis env tid oid; ws = process_status_writes ops
    in (ws = take (length ws) [1, 2, 3, 4, 5, 6, 7, 8, 9] \<or>
        ws = take (length ws - 1) [1, 2, 3, 4, 5, 6, 7, 8, 9] @ [- 1]) \<and>
       (- 1 \<in> set ws \<longrightarrow>
          Task_completed tid \<notin> set ops \<and> list_ex (is_task_failed tid) ops) \<and>
       (Task_completed tid \<in> set ops \<longrightarrow>
          ws = [1, 2, 3, 4, 5, 6, 7, 8, 9] \<and>
          list_ex (is_bundle_of tid) (takeWhile (\<lambda>op. op \<noteq> Task_completed tid) ops)))"
proof -
  let ?ops = "run_factor_analysis env tid oid"
  let ?ws = "process_status_writes ?ops"
  have forms: "?ws = take (length ?ws) [1, 2, 3, 4, 5, 6, 7, 8, 9] \<or>
               (?ws = take (length ?ws - 1) [1, 2, 3, 4, 5, 6, 7, 8, 9] @ [- 1] \<and>
                Task_completed tid \<notin> set ?ops \<and> list_ex (is_task_failed tid) ?ops)"
    using run_writes_forms [of env tid oid] by (simp add: Let_def)
  have neg: "Task_completed tid \<notin> set ?ops \<and> list_ex (is_task_failed tid) ?ops"
    if "- 1 \<in> set ?ws"
  proof -
    have "- 1 \<notin> set (take n [1, 2, 3, 4, 5, 6, 7, 8, 9 :: int])" for n
      by (auto dest: in_set_takeD)
    then show ?thesis using forms that by metis
  qed
  have pos: "?ws = [1, 2, 3, 4, 5, 6, 7, 8, 9] \<and>
             list_ex (is_bundle_of tid) (takeWhile (\<lambda>op. op \<noteq> Task_completed tid) ?ops)"
    if "Task_completed tid \<in> set ?ops"
    using run_completed_form [OF that]
    by (simp add: success_ops_def inset_to_database_def is_bundle_of_def)
  show ?thesis
    using forms neg pos by (simp add: Let_def) blast
qed

theorem process_status_written_in_order_witness:
  "Task_completed ''T1'' \<in> set (run_factor_analysis env_all_ok ''T1'' 1) \<and>
   process_status_writes (run_factor_analysis env_all_ok ''T1'' 1) = [1, 2, 3, 4, 5, 6, 7, 8, 9] \<and>
   list_ex (is_bundle_of ''T1'')
     (takeWhile (\<lambda>op. op \<noteq> Task_completed ''T1'') (run_factor_analysis env_all_ok ''T1'' 1)) \<and>
   - 1 \<in> set (process_status_writes (run_factor_analysis (env_fails_at 4) ''T1'' 1)) \<and>
   Task_completed ''T1'' \<notin> set (run_factor_analysis (env_fails_at 4) ''T1'' 1)"
proof -
  have a: "Task_completed ''T1'' \<in> set (run_factor_analysis env_all_ok ''T1'' 1)"
    by (simp add: run_factor_analysis_def factor_analysis_def stage_def env_all_ok_def)
  have b: "- 1 \<in> set (process_status_writes (run_factor_analysis (env_fails_at 4) ''T1'' 1))"
    by (simp add: run_factor_analysis_def factor_analysis_def stage_def env_fails_at_def
        run_failed_def)
  show ?thesis
    using a b process_status_written_in_order [of env_all_ok "''T1''" 1]
      process_status_written_in_order [of "env_fails_at 4" "''T1''" 1]
    by (simp add: Let_def)
qed


subsection \<open>Admission with invalid parameters\<close>



























subsection \<open>The trimming rule applied\<close>

text \<open>
  C2.  The claim: the user's selection decides the rule, 3-sigma for the std method and
  median-MAD for the median method.  The code: both branches call \<open>ext_out_3std_list\<close>;
  the median branch logs that it uses \<open>ext_out_mad\<close> and never calls it.  Whatever the two
  functions compute, every selection yields the cross-sections trimmed by
  \<open>ext_out_3std_list\<close>.
\<close>

theorem trim_extremes_ignores_selection:
  "trim_extremes ext_out_3std_list ext_out_mad ''median'' df_factor =
     map ext_out_3std_list df_factor \<and>
   trim_extremes ext_out_3std_list ext_out_mad method_median_cn df_factor =
     map ext_out_3std_list df_factor \<and>
   trim_extremes ext_out_3std_list ext_out_mad ''std'' df_factor =
     map ext_out_3std_list df_factor \<and>
   trim_extremes ext_out_3std_list ext_out_mad method_std_cn df_factor =
     map ext_out_3std_list df_factor"
  by (simp add: trim_extremes_def)

section \<open>Query surface: \<open>get_user_factor_list\<close>\<close>


























section \<open>Incremental log reads: \<open>get_task_logs\<close>\<close>








































section \<open>Range chunking: \<open>_chunk_date_range\<close>\<close>





















section \<open>Custom factor on demand: \<open>get_custom_factor\<close>\<close>


































end
